theory Spec2Isabelle
  imports Complex_Main "HOL-Library.Word" "HOL-Library.Signed_Division"
begin

section \<open>C arithmetic on \<open>int\<close>\<close>

text \<open>
  A value of the C type \<open>int\<close> is an \<open>int\<close> between \<open>INT_MIN\<close> and \<open>INT_MAX\<close>.
  Signed overflow and division by zero are undefined behaviour in the source; here
  each operation checks its result and reports a fault instead. The operators
  \<open>sdiv\<close> and \<open>smod\<close> truncate towards zero, as \<open>/\<close> and \<open>%\<close> do in C.
\<close>

datatype fault = OutOfBounds | DivByZero | SignedOverflow

text \<open>
  Where the source stores or passes a 32-bit integer, the model has a \<open>32 word\<close>:
  \<open>sint\<close> reads it as the C \<open>int\<close> it holds, \<open>uint\<close> as the \<open>uint32_t\<close>. The
  conversion between the two C types keeps the bits, so it is the identity on the word.
\<close>

type_synonym int32_t = "32 word"
type_synonym uint32_t = "32 word"

definition INT_MIN :: int where
  "INT_MIN = - (2 ^ 31)"

definition INT_MAX :: int where
  "INT_MAX = 2 ^ 31 - 1"

definition int_c :: "int \<Rightarrow> fault + int" where
  "int_c v = (if INT_MIN \<le> v \<and> v \<le> INT_MAX then Inr v else Inl SignedOverflow)"

definition c_add :: "int \<Rightarrow> int \<Rightarrow> fault + int" where
  "c_add a b = int_c (a + b)"

definition c_sub :: "int \<Rightarrow> int \<Rightarrow> fault + int" where
  "c_sub a b = int_c (a - b)"

definition c_mul :: "int \<Rightarrow> int \<Rightarrow> fault + int" where
  "c_mul a b = int_c (a * b)"

definition c_div :: "int \<Rightarrow> int \<Rightarrow> fault + int" where
  "c_div a b = (if b = 0 then Inl DivByZero else int_c (a sdiv b))"

definition c_rem :: "int \<Rightarrow> int \<Rightarrow> fault + int" where
  "c_rem a b = (case c_div a b of Inl f \<Rightarrow> Inl f | Inr q \<Rightarrow> Inr (a smod b))"

definition thenF :: "fault + 'a \<Rightarrow> ('a \<Rightarrow> fault + 'b) \<Rightarrow> fault + 'b" where
  "thenF m f = (case m of Inl e \<Rightarrow> Inl e | Inr v \<Rightarrow> f v)"

section \<open>fod/FingerprintInscreen.cpp: brightness to dim alpha\<close>

subsection \<open>The lookup table\<close>

record ba =
  brightness :: uint32_t
  alpha :: uint32_t

definition mk_ba :: "uint32_t \<Rightarrow> uint32_t \<Rightarrow> ba" where
  "mk_ba b a = \<lparr>brightness = b, alpha = a\<rparr>"

definition brightness_alpha_lut_1 :: "ba list" where
  "brightness_alpha_lut_1 =
    [mk_ba 0 0xff, mk_ba 1 0xf1, mk_ba 2 0xf0, mk_ba 3 0xee, mk_ba 4 0xec,
     mk_ba 6 0xeb, mk_ba 10 0xe7, mk_ba 20 0xdf, mk_ba 30 0xd8, mk_ba 45 0xd0,
     mk_ba 70 0xc5, mk_ba 100 0xb9, mk_ba 150 0xaf, mk_ba 227 0x99, mk_ba 300 0x88,
     mk_ba 400 0x76, mk_ba 500 0x66, mk_ba 600 0x59, mk_ba 800 0x42, mk_ba 1023 0x2a,
     mk_ba 2000 0x83]"

text \<open>
  The global \<open>brightness_alpha_lut[21] = {}\<close> starts zeroed; the constructor of
  \<open>FingerprintInscreen\<close> copies the 21 entries of \<open>brightness_alpha_lut_1\<close> into it,
  index by index. Every method of the class sees the table after that copy.
\<close>

definition brightness_alpha_lut_zeroed :: "ba list" where
  "brightness_alpha_lut_zeroed = replicate 21 (mk_ba 0 0)"

fun copy_lut :: "nat \<Rightarrow> nat \<Rightarrow> ba list \<Rightarrow> ba list" where
  "copy_lut 0 i lut = lut"
| "copy_lut (Suc n) i lut = copy_lut n (i + 1) (lut[i := brightness_alpha_lut_1 ! i])"

definition brightness_alpha_lut :: "ba list" where
  "brightness_alpha_lut = copy_lut 21 0 brightness_alpha_lut_zeroed"

definition ARRAY_SIZE :: "ba list \<Rightarrow> nat" where
  "ARRAY_SIZE lut = length lut"

text \<open>Indexing with a C \<open>int\<close>; an index outside the array is a fault.\<close>

definition at_index :: "ba list \<Rightarrow> int \<Rightarrow> fault + ba" where
  "at_index lut k = (if 0 \<le> k \<and> k < int (length lut) then Inr (lut ! nat k) else Inl OutOfBounds)"

subsection \<open>interpolate\<close>

text \<open>
  Every operation of the source expression is one checked step, in the order in which
  C parses it: \<open>2 * (yb - ya) * (x - xa) / (xb - xa)\<close> is
  \<open>((2 * (yb - ya)) * (x - xa)) / (xb - xa)\<close>, and the correction term is
  \<open>(((2 * (x - xa)) * (x - xb)) / (yb - ya)) / (xa - xb)\<close>, computed only when both
  \<open>xa - xb\<close> and \<open>yb - ya\<close> are nonzero.
\<close>

definition interpolate_sub :: "int \<Rightarrow> int \<Rightarrow> int \<Rightarrow> int \<Rightarrow> int \<Rightarrow> fault + int" where
  "interpolate_sub x xa xb ya yb =
     thenF (c_sub xa xb) (\<lambda>c1.
       if c1 = 0 then Inr 0
       else thenF (c_sub yb ya) (\<lambda>c2.
         if c2 = 0 then Inr 0
         else thenF (c_sub x xa) (\<lambda>t.
              thenF (c_mul 2 t) (\<lambda>m1.
              thenF (c_sub x xb) (\<lambda>u.
              thenF (c_mul m1 u) (\<lambda>m2.
              thenF (c_sub yb ya) (\<lambda>dy.
              thenF (c_div m2 dy) (\<lambda>q1.
              thenF (c_sub xa xb) (\<lambda>nx.
              c_div q1 nx)))))))))"

definition interpolate :: "int \<Rightarrow> int \<Rightarrow> int \<Rightarrow> int \<Rightarrow> int \<Rightarrow> fault + int" where
  "interpolate x xa xb ya yb =
     thenF (c_sub yb ya) (\<lambda>dy.
     thenF (c_mul 2 dy) (\<lambda>m1.
     thenF (c_sub x xa) (\<lambda>t.
     thenF (c_mul m1 t) (\<lambda>m2.
     thenF (c_sub xb xa) (\<lambda>dx.
     thenF (c_div m2 dx) (\<lambda>bf.
     thenF (c_div bf 2) (\<lambda>factor.
     thenF (c_rem bf 2) (\<lambda>plus.
     thenF (interpolate_sub x xa xb ya yb) (\<lambda>sub.
     thenF (c_add ya factor) (\<lambda>s1.
     thenF (c_add s1 plus) (\<lambda>s2.
     c_add s2 sub)))))))))))"

subsection \<open>brightness_to_alpha\<close>

text \<open>
  The scan loop. The table's \<open>brightness\<close> is a \<open>uint32_t\<close> and the argument an
  \<open>int\<close>, so the comparison \<open>lut[i].brightness >= brightness\<close> converts the argument
  to \<open>unsigned\<close> first: \<open>scan\<close> compares the two words as unsigned numbers.
\<close>

function scan :: "ba list \<Rightarrow> uint32_t \<Rightarrow> nat \<Rightarrow> nat" where
  "scan lut b i =
     (if i < ARRAY_SIZE lut
      then (if brightness (lut ! i) \<ge> b then i else scan lut b (i + 1))
      else i)"
  by pat_completeness auto
termination
  by (relation "measure (\<lambda>(lut, b, i). ARRAY_SIZE lut - i)") auto

declare scan.simps [simp del]

definition brightness_to_alpha :: "ba list \<Rightarrow> int32_t \<Rightarrow> fault + int" where
  "brightness_to_alpha lut b =
     (let level = int (ARRAY_SIZE lut);
          i = int (scan lut b 0)
      in if i = 0 then thenF (at_index lut 0) (\<lambda>e. Inr (sint (alpha e)))
         else if i = level then thenF (at_index lut (level - 1)) (\<lambda>e. Inr (sint (alpha e)))
         else thenF (at_index lut (i - 1)) (\<lambda>lo.
              thenF (at_index lut i) (\<lambda>hi.
              interpolate (sint b) (sint (brightness lo)) (sint (brightness hi))
                          (sint (alpha lo)) (sint (alpha hi)))))"

subsection \<open>getDimAmount\<close>

text \<open>
  \<open>get(path, def)\<close> reads an \<open>int\<close> from a control file and yields \<open>def\<close> when the file
  cannot be opened or does not parse. The files are the environment: a map from the
  path to the number read, \<open>None\<close> where the read fails.
\<close>

type_synonym sysfs = "string \<Rightarrow> int32_t option"

definition PANEL_BRIGHTNESS_PATH :: string where
  "PANEL_BRIGHTNESS_PATH = ''/sys/class/backlight/panel0-backlight/brightness''"

definition HBM_PATH :: string where
  "HBM_PATH = ''/sys/class/drm/card0-DSI-1/hbm''"

definition DIM_AMOUNT_PATH :: string where
  "DIM_AMOUNT_PATH = ''/sys/class/drm/card0-DSI-1/dim_alpha''"

definition get_sysfs :: "sysfs \<Rightarrow> string \<Rightarrow> int32_t \<Rightarrow> int32_t" where
  "get_sysfs env path def = (case env path of None \<Rightarrow> def | Some v \<Rightarrow> v)"

text \<open>
  The source file carries both sides of a merge of \<open>getDimAmount\<close>. The side of commit
  1b15a52 ("Calculate dim alpha based on real brightness") is the one that calls
  \<open>brightness_to_alpha\<close> and reads \<open>HBM_PATH\<close>; it is \<open>getDimAmount\<close> below. The other
  side, \<open>getDimAmount_HEAD\<close>, reads the dim amount from \<open>DIM_AMOUNT_PATH\<close> when the
  build flag \<open>FOD_HBM\<close> is set and is 0 otherwise. Both ignore their argument.
\<close>

definition getDimAmount :: "ba list \<Rightarrow> sysfs \<Rightarrow> int32_t \<Rightarrow> fault + int" where
  "getDimAmount lut env arg =
     (let brightness = get_sysfs env PANEL_BRIGHTNESS_PATH 0
      in thenF (brightness_to_alpha lut brightness) (\<lambda>dimAmount.
         let hbmMode = get_sysfs env HBM_PATH 0
         in Inr (if hbmMode = 5 then 42 else dimAmount)))"

definition getDimAmount_HEAD :: "bool \<Rightarrow> sysfs \<Rightarrow> int32_t \<Rightarrow> fault + int" where
  "getDimAmount_HEAD FOD_HBM env arg =
     Inr (if FOD_HBM then sint (get_sysfs env DIM_AMOUNT_PATH 0) else 0)"

section \<open>vibrator/Vibrator.cpp: the haptic effect sequencer\<close>

subsection \<open>Control files and constants\<close>

definition ACTIVATE_PATH :: string where
  "ACTIVATE_PATH = ''/sys/class/leds/vibrator/activate''"

definition BRIGHTNESS_PATH :: string where
  "BRIGHTNESS_PATH = ''/sys/class/leds/vibrator/brightness''"

definition CTRL_LOOP_PATH :: string where
  "CTRL_LOOP_PATH = ''/sys/class/leds/vibrator/loop''"

definition DURATION_PATH :: string where
  "DURATION_PATH = ''/sys/class/leds/vibrator/duration''"

definition GAIN_PATH :: string where
  "GAIN_PATH = ''/sys/class/leds/vibrator/gain''"

definition IGNORE_STORE_PATH :: string where
  "IGNORE_STORE_PATH = ''/sys/class/leds/vibrator/ignore_store''"

definition LP_TRIGGER_PATH :: string where
  "LP_TRIGGER_PATH = ''/sys/class/leds/vibrator/haptic_audio''"

definition LRA_WAVE_SHAPE_PATH :: string where
  "LRA_WAVE_SHAPE_PATH = ''/sys/class/leds/vibrator/lra_resistance''"

definition MODE_PATH :: string where
  "MODE_PATH = ''/sys/class/leds/vibrator/activate_mode''"

definition RTP_INPUT_PATH :: string where
  "RTP_INPUT_PATH = ''/sys/class/leds/vibrator/rtp''"

definition SCALE_PATH :: string where
  "SCALE_PATH = ''/sys/class/leds/vibrator/gain''"

definition SEQ_PATH :: string where
  "SEQ_PATH = ''/sys/class/leds/vibrator/seq''"

definition VMAX_PATH :: string where
  "VMAX_PATH = ''/sys/class/leds/vibrator/vmax''"

definition RTP_MODE :: string where
  "RTP_MODE = ''rtp''"

definition MAX_RTP_INPUT :: "8 word" where
  "MAX_RTP_INPUT = 127"

definition MIN_RTP_INPUT :: "8 word" where
  "MIN_RTP_INPUT = 0"

definition WAVEFORM_MODE :: string where
  "WAVEFORM_MODE = ''waveform''"

definition SQUARE_WAVE :: "8 word" where
  "SQUARE_WAVE = 0"

definition SINE_WAVE :: "8 word" where
  "SINE_WAVE = 1"

definition GAIN :: "8 word" where
  "GAIN = 128"

definition LOOP_MODE_OPEN :: "8 word" where
  "LOOP_MODE_OPEN = 1"

definition VMAX :: "8 word" where
  "VMAX = 9"

definition WAVEFORM_CLICK_EFFECT_SEQ :: "string list" where
  "WAVEFORM_CLICK_EFFECT_SEQ = [''0 1'', ''1 0'']"

definition WAVEFORM_CLICK_EFFECT_CTRL_LOOPS :: "string list" where
  "WAVEFORM_CLICK_EFFECT_CTRL_LOOPS = [''0 0x0'']"

definition WAVEFORM_CLICK_EFFECT_MS :: uint32_t where
  "WAVEFORM_CLICK_EFFECT_MS = 0"

definition WAVEFORM_TICK_EFFECT_SEQ :: "string list" where
  "WAVEFORM_TICK_EFFECT_SEQ = [''0 1'', ''1 0'']"

definition WAVEFORM_TICK_EFFECT_CTRL_LOOPS :: "string list" where
  "WAVEFORM_TICK_EFFECT_CTRL_LOOPS = [''1 0x0'']"

definition WAVEFORM_TICK_EFFECT_MS :: uint32_t where
  "WAVEFORM_TICK_EFFECT_MS = 0"

definition WAVEFORM_DOUBLE_CLICK_EFFECT_SEQ :: "string list" where
  "WAVEFORM_DOUBLE_CLICK_EFFECT_SEQ = [''0 1'']"

definition WAVEFORM_DOUBLE_CLICK_EFFECT_CTRL_LOOPS :: "string list" where
  "WAVEFORM_DOUBLE_CLICK_EFFECT_CTRL_LOOPS = [''0 0x0'', ''1 0x0'']"

definition WAVEFORM_DOUBLE_CLICK_EFFECT_MS :: uint32_t where
  "WAVEFORM_DOUBLE_CLICK_EFFECT_MS = 10"

definition WAVEFORM_HEAVY_CLICK_EFFECT_SEQ :: "string list" where
  "WAVEFORM_HEAVY_CLICK_EFFECT_SEQ = [''0 0'', ''1 0'']"

definition WAVEFORM_HEAVY_CLICK_EFFECT_CTRL_LOOPS :: "string list" where
  "WAVEFORM_HEAVY_CLICK_EFFECT_CTRL_LOOPS = [''1 0x1'']"

definition WAVEFORM_HEAVY_CLICK_EFFECT_MS :: uint32_t where
  "WAVEFORM_HEAVY_CLICK_EFFECT_MS = 10"

definition WAVEFORM_POP_EFFECT_MS :: uint32_t where
  "WAVEFORM_POP_EFFECT_MS = 5"

definition WAVEFORM_THUD_EFFECT_MS :: uint32_t where
  "WAVEFORM_THUD_EFFECT_MS = 10"

subsection \<open>Types of the vibrator interface\<close>

text \<open>
  \<open>Status\<close>, \<open>Effect\<close> and \<open>EffectStrength\<close> are enumerations of the platform's vibrator
  interface, declared outside this repository. The model has the enumerators that the
  source names; \<open>Effect_other\<close> and \<open>EffectStrength_other\<close> stand for every other value
  that a caller can pass (the argument is only a tag that tells them apart).
\<close>

datatype Status = OK | UNKNOWN_ERROR | BAD_VALUE | UNSUPPORTED_OPERATION

datatype Effect = CLICK | DOUBLE_CLICK | TICK | THUD | POP | HEAVY_CLICK | Effect_other nat

datatype EffectStrength = LIGHT | MEDIUM | STRONG | EffectStrength_other nat

subsection \<open>Writing to a control file\<close>

text \<open>
  \<open>set(path, value)\<close> is a template: the value is written with the stream operator of
  its C++ type. \<open>written\<close> keeps that type: an \<open>int\<close>, a \<open>uint8_t\<close>, a \<open>uint32_t\<close> or a
  string. The state of the vibrator is its one field and the sequence of the calls of
  \<open>set\<close> so far, oldest first. A file that cannot be opened drops the value after a
  log line; no caller can tell, so the model records the call and not its outcome.
\<close>

datatype written = Int_val int | U8_val "8 word" | U32_val uint32_t | Str_val string

record vibrator =
  mShouldSetBrightness :: bool
  writes :: "(string \<times> written) list"

definition set_sysfs :: "string \<Rightarrow> written \<Rightarrow> vibrator \<Rightarrow> vibrator" where
  "set_sysfs path v s = s\<lparr>writes := writes s @ [(path, v)]\<rparr>"

subsection \<open>on and off\<close>

definition on :: "uint32_t \<Rightarrow> bool \<Rightarrow> vibrator \<Rightarrow> Status \<times> vibrator" where
  "on timeoutMs isWaveform s =
     (let s1 = set_sysfs CTRL_LOOP_PATH (U8_val LOOP_MODE_OPEN) s;
          s2 = set_sysfs DURATION_PATH (U32_val timeoutMs) s1;
          s3 = (if isWaveform
                then let m = set_sysfs MODE_PATH (Str_val WAVEFORM_MODE) s2
                     in set_sysfs LRA_WAVE_SHAPE_PATH (U8_val SINE_WAVE) m
                else let m = set_sysfs MODE_PATH (Str_val RTP_MODE) s2
                     in set_sysfs LRA_WAVE_SHAPE_PATH (U8_val SQUARE_WAVE) m);
          s4 = (if mShouldSetBrightness s3
                then set_sysfs BRIGHTNESS_PATH (Int_val 1) s3
                else let z = set_sysfs BRIGHTNESS_PATH (Int_val 0) s3
                     in set_sysfs ACTIVATE_PATH (Int_val 1) z)
      in (OK, s4))"

text \<open>The one-argument overload \<open>on(timeoutMs)\<close>.\<close>

definition on_timeout :: "uint32_t \<Rightarrow> vibrator \<Rightarrow> Status \<times> vibrator" where
  "on_timeout timeoutMs s = on timeoutMs False (s\<lparr>mShouldSetBrightness := False\<rparr>)"

definition off :: "vibrator \<Rightarrow> Status \<times> vibrator" where
  "off s =
     (let s1 = set_sysfs BRIGHTNESS_PATH (Int_val 0) s;
          s2 = set_sysfs ACTIVATE_PATH (Int_val 0) s1
      in (OK, s2))"

subsection \<open>performEffect\<close>

definition convertEffectStrength :: "EffectStrength \<Rightarrow> 8 word" where
  "convertEffectStrength strength =
     (case strength of
        LIGHT \<Rightarrow> 54
      | MEDIUM \<Rightarrow> 107
      | STRONG \<Rightarrow> 107
      | EffectStrength_other n \<Rightarrow> 0)"

definition setEffect ::
  "string list option \<Rightarrow> string list option \<Rightarrow> int option \<Rightarrow> 8 word option \<Rightarrow> 8 word option
    \<Rightarrow> vibrator \<Rightarrow> vibrator" where
  "setEffect sequences ctrlLoops duration vmax gain s =
     (let s1 = set_sysfs ACTIVATE_PATH (Int_val 0) s;
          s2 = set_sysfs IGNORE_STORE_PATH (Int_val 0) s1;
          s3 = (case duration of None \<Rightarrow> s2 | Some d \<Rightarrow> set_sysfs DURATION_PATH (Int_val d) s2);
          s4 = (case vmax of None \<Rightarrow> s3 | Some v \<Rightarrow> set_sysfs VMAX_PATH (U8_val v) s3);
          s5 = (case gain of None \<Rightarrow> s4 | Some g \<Rightarrow> set_sysfs GAIN_PATH (U8_val g) s4);
          s6 = (case sequences of None \<Rightarrow> s5
                | Some qs \<Rightarrow> fold (\<lambda>sequence. set_sysfs SEQ_PATH (Str_val sequence)) qs s5);
          s7 = (case ctrlLoops of None \<Rightarrow> s6
                | Some cs \<Rightarrow> fold (\<lambda>ctrlLoop. set_sysfs CTRL_LOOP_PATH (Str_val ctrlLoop)) cs s6)
      in s7)"

text \<open>
  The \<open>switch\<close> either leaves through \<open>default\<close> (\<open>None\<close> below) or yields the state
  after \<open>setEffect\<close> with the flag set, and \<open>timeMS\<close>. An empty brace \<open>{}\<close> in the
  source is an empty \<open>std::optional\<close>, \<open>None\<close> here. The result is what the callback
  \<open>_hidl_cb\<close> receives, with the state that the call leaves.
\<close>

definition performEffect ::
  "Effect \<Rightarrow> EffectStrength \<Rightarrow> vibrator \<Rightarrow> (Status \<times> uint32_t) \<times> vibrator" where
  "performEffect effect strength s =
     (let switch =
        (case effect of
           CLICK \<Rightarrow>
             Some ((setEffect (Some WAVEFORM_CLICK_EFFECT_SEQ) (Some WAVEFORM_CLICK_EFFECT_CTRL_LOOPS)
                     None (Some VMAX) (Some GAIN) s)\<lparr>mShouldSetBrightness := True\<rparr>,
                   WAVEFORM_CLICK_EFFECT_MS)
         | DOUBLE_CLICK \<Rightarrow>
             Some ((setEffect (Some WAVEFORM_DOUBLE_CLICK_EFFECT_SEQ)
                     (Some WAVEFORM_DOUBLE_CLICK_EFFECT_CTRL_LOOPS)
                     None (Some VMAX) (Some GAIN) s)\<lparr>mShouldSetBrightness := True\<rparr>,
                   WAVEFORM_DOUBLE_CLICK_EFFECT_MS)
         | TICK \<Rightarrow>
             Some ((setEffect (Some WAVEFORM_TICK_EFFECT_SEQ) (Some WAVEFORM_TICK_EFFECT_CTRL_LOOPS)
                     None (Some VMAX) (Some GAIN) s)\<lparr>mShouldSetBrightness := True\<rparr>,
                   WAVEFORM_TICK_EFFECT_MS)
         | HEAVY_CLICK \<Rightarrow>
             Some ((setEffect (Some WAVEFORM_HEAVY_CLICK_EFFECT_SEQ)
                     (Some WAVEFORM_HEAVY_CLICK_EFFECT_CTRL_LOOPS)
                     None (Some VMAX) (Some GAIN) s)\<lparr>mShouldSetBrightness := True\<rparr>,
                   WAVEFORM_HEAVY_CLICK_EFFECT_MS)
         | POP \<Rightarrow>
             Some ((setEffect None None (Some 0) (Some VMAX) (Some GAIN) s)
                     \<lparr>mShouldSetBrightness := True\<rparr>,
                   WAVEFORM_POP_EFFECT_MS)
         | THUD \<Rightarrow>
             Some ((setEffect None None (Some 0) (Some VMAX) (Some GAIN) s)
                     \<lparr>mShouldSetBrightness := True\<rparr>,
                   WAVEFORM_THUD_EFFECT_MS)
         | Effect_other n \<Rightarrow> None)
      in case switch of
           None \<Rightarrow> ((UNSUPPORTED_OPERATION, 0), s\<lparr>mShouldSetBrightness := False\<rparr>)
         | Some (s1, timeMS) \<Rightarrow>
             (let s2 = set_sysfs SCALE_PATH (U8_val (convertEffectStrength strength)) s1;
                  s3 = snd (on timeMS True s2)
              in ((OK, timeMS), s3)))"

subsection \<open>Double arithmetic\<close>

text \<open>
  \<open>setAmplitude\<close> computes in \<open>double\<close>. A finite double is a pair \<open>(m, e)\<close> of a
  significand and an exponent, with the value \<open>m * 2 ^ e\<close>. Every operation computes the
  exact result as a quotient \<open>n / d * 2 ^ e\<close> and rounds it to 53 significant bits, to
  the nearest value and to the even significand in a tie, as IEEE 754 binary64 does in
  its default rounding mode. The model covers results that are zero or normal numbers
  and is \<open>None\<close> elsewhere (overflow, subnormal results, division by zero).
\<close>

type_synonym double = "int \<times> int"

text \<open>Scale \<open>n / d\<close> by powers of two until \<open>2 ^ 52 \<le> n / d < 2 ^ 53\<close>, for positive \<open>n\<close> and \<open>d\<close>.\<close>

fun normalize_quotient :: "nat \<Rightarrow> int \<Rightarrow> int \<Rightarrow> int \<Rightarrow> (int \<times> int \<times> int) option" where
  "normalize_quotient 0 n d e = None"
| "normalize_quotient (Suc fuel) n d e =
     (if n < 2 ^ 52 * d then normalize_quotient fuel (2 * n) d (e - 1)
      else if 2 ^ 53 * d \<le> n then normalize_quotient fuel n (2 * d) (e + 1)
      else Some (n, d, e))"

text \<open>The integer nearest to \<open>n / d\<close>, the even one of two that are equally near.\<close>

definition nearest_even :: "int \<Rightarrow> int \<Rightarrow> int" where
  "nearest_even n d =
     (let q = n div d; r = n mod d
      in if 2 * r < d then q
         else if d < 2 * r then q + 1
         else if even q then q else q + 1)"

definition round_double :: "int \<Rightarrow> int \<Rightarrow> int \<Rightarrow> double option" where
  "round_double n d e =
     (if d \<le> 0 then None
      else if n = 0 then Some (0, 0)
      else case normalize_quotient 2200 \<bar>n\<bar> d e of
             None \<Rightarrow> None
           | Some (n', d', e') \<Rightarrow>
               if - 1074 \<le> e' \<and> e' \<le> 970 then Some (sgn n * nearest_even n' d', e') else None)"

definition double_of_int :: "int \<Rightarrow> double option" where
  "double_of_int k = round_double k 1 0"

definition double_div :: "double \<Rightarrow> double \<Rightarrow> double option" where
  "double_div a b =
     (case (a, b) of
        ((m1, e1), (m2, e2)) \<Rightarrow>
          if m2 = 0 then None else round_double (m1 * sgn m2) \<bar>m2\<bar> (e1 - e2))"

definition double_mul :: "double \<Rightarrow> double \<Rightarrow> double option" where
  "double_mul a b =
     (case (a, b) of ((m1, e1), (m2, e2)) \<Rightarrow> round_double (m1 * m2) 1 (e1 + e2))"

definition double_add :: "double \<Rightarrow> double \<Rightarrow> double option" where
  "double_add a b =
     (case (a, b) of
        ((m1, e1), (m2, e2)) \<Rightarrow>
          (let e = min e1 e2
           in round_double (m1 * 2 ^ nat (e1 - e) + m2 * 2 ^ nat (e2 - e)) 1 e))"

text \<open>\<open>std::round\<close>: the nearest integer, away from zero in a tie.\<close>

definition std_round :: "double \<Rightarrow> int" where
  "std_round a =
     (case a of
        (m, e) \<Rightarrow>
          if 0 \<le> e then m * 2 ^ nat e
          else (let d = 2 ^ nat (- e); q = \<bar>m\<bar> div d; r = \<bar>m\<bar> mod d
                in sgn m * (if d \<le> 2 * r then q + 1 else q)))"

subsection \<open>setAmplitude\<close>

text \<open>
  The argument of \<open>std::round\<close> is
  \<open>(((amplitude - 1) / 254.0) * (MAX_RTP_INPUT - MIN_RTP_INPUT)) + MIN_RTP_INPUT\<close>: the
  \<open>uint8_t\<close> operands are promoted to \<open>int\<close>, the two differences are \<open>int\<close>
  subtractions, and each \<open>int\<close> that meets a \<open>double\<close> is converted to \<open>double\<close>. The
  rounded value is converted to \<open>int32_t\<close>, which is defined only inside that type's
  range.
\<close>

definition rtp_input_value :: "8 word \<Rightarrow> int option" where
  "rtp_input_value amplitude =
     Option.bind (double_of_int (uint amplitude - 1)) (\<lambda>a.
     Option.bind (double_of_int 254) (\<lambda>c254.
     Option.bind (double_div a c254) (\<lambda>q.
     Option.bind (double_of_int (uint MAX_RTP_INPUT - uint MIN_RTP_INPUT)) (\<lambda>span.
     Option.bind (double_mul q span) (\<lambda>p.
     Option.bind (double_of_int (uint MIN_RTP_INPUT)) (\<lambda>lo.
     Option.bind (double_add p lo) (\<lambda>r.
     (let v = std_round r in if INT_MIN \<le> v \<and> v \<le> INT_MAX then Some v else None))))))))"

text \<open>
  The result is \<open>None\<close> where the double arithmetic leaves the part of the type that the
  model covers, and the status with the new state otherwise.
\<close>

definition setAmplitude :: "8 word \<Rightarrow> vibrator \<Rightarrow> (Status \<times> vibrator) option" where
  "setAmplitude amplitude s =
     (if amplitude = 0 then Some (BAD_VALUE, s)
      else case rtp_input_value amplitude of
             None \<Rightarrow> None
           | Some v \<Rightarrow> Some (OK, set_sysfs RTP_INPUT_PATH (Int_val v) s))"

section \<open>The specification's formulas\<close>

text \<open>
  The blend as the specification words it, from \<open>dy\<close>, \<open>dx\<close> and \<open>t\<close>: two truncating
  divisions of the correction term, first by \<open>dy\<close>, then by \<open>dx\<close>. The remainder
  \<open>bf mod 2\<close> is the one of the truncating division.
\<close>

definition spec_interpolate :: "int \<Rightarrow> int \<Rightarrow> int \<Rightarrow> int \<Rightarrow> int \<Rightarrow> int" where
  "spec_interpolate x xa xb ya yb =
     (let dy = yb - ya; dx = xb - xa; t = x - xa;
          bf = (2 * dy * t) sdiv dx;
          factor = bf sdiv 2;
          plus = bf smod 2;
          sub = (if dx \<noteq> 0 \<and> dy \<noteq> 0 then (2 * t * (x - xb)) sdiv dy sdiv dx else 0)
      in ya + factor + plus + sub)"

text \<open>
  The specification's effect descriptor: the sequence strings, the control-loop strings,
  the duration override if there is one, and the nominal duration. \<open>descriptor\<close> is the
  table of the six effects, filled from the constants of the source; POP and THUD have
  no sequence and no control-loop data and override the duration with 0.
\<close>

record effect_descriptor =
  sequences :: "string list"
  ctrl_loops :: "string list"
  duration_override :: "int option"
  nominal_ms :: uint32_t

definition descriptor :: "Effect \<Rightarrow> effect_descriptor option" where
  "descriptor effect =
     (case effect of
        CLICK \<Rightarrow> Some \<lparr>sequences = WAVEFORM_CLICK_EFFECT_SEQ,
                         ctrl_loops = WAVEFORM_CLICK_EFFECT_CTRL_LOOPS,
                         duration_override = None, nominal_ms = WAVEFORM_CLICK_EFFECT_MS\<rparr>
      | DOUBLE_CLICK \<Rightarrow> Some \<lparr>sequences = WAVEFORM_DOUBLE_CLICK_EFFECT_SEQ,
                         ctrl_loops = WAVEFORM_DOUBLE_CLICK_EFFECT_CTRL_LOOPS,
                         duration_override = None, nominal_ms = WAVEFORM_DOUBLE_CLICK_EFFECT_MS\<rparr>
      | TICK \<Rightarrow> Some \<lparr>sequences = WAVEFORM_TICK_EFFECT_SEQ,
                         ctrl_loops = WAVEFORM_TICK_EFFECT_CTRL_LOOPS,
                         duration_override = None, nominal_ms = WAVEFORM_TICK_EFFECT_MS\<rparr>
      | HEAVY_CLICK \<Rightarrow> Some \<lparr>sequences = WAVEFORM_HEAVY_CLICK_EFFECT_SEQ,
                         ctrl_loops = WAVEFORM_HEAVY_CLICK_EFFECT_CTRL_LOOPS,
                         duration_override = None, nominal_ms = WAVEFORM_HEAVY_CLICK_EFFECT_MS\<rparr>
      | POP \<Rightarrow> Some \<lparr>sequences = [], ctrl_loops = [],
                         duration_override = Some 0, nominal_ms = WAVEFORM_POP_EFFECT_MS\<rparr>
      | THUD \<Rightarrow> Some \<lparr>sequences = [], ctrl_loops = [],
                         duration_override = Some 0, nominal_ms = WAVEFORM_THUD_EFFECT_MS\<rparr>
      | Effect_other n \<Rightarrow> None)"

text \<open>The writes of one effect descriptor, in the order of the specification.\<close>

definition descriptor_writes :: "effect_descriptor \<Rightarrow> (string \<times> written) list" where
  "descriptor_writes d =
     [(ACTIVATE_PATH, Int_val 0), (IGNORE_STORE_PATH, Int_val 0)]
     @ (case duration_override d of None \<Rightarrow> [] | Some v \<Rightarrow> [(DURATION_PATH, Int_val v)])
     @ [(VMAX_PATH, U8_val 9), (GAIN_PATH, U8_val 128)]
     @ map (\<lambda>q. (SEQ_PATH, Str_val q)) (sequences d)
     @ map (\<lambda>c. (CTRL_LOOP_PATH, Str_val c)) (ctrl_loops d)"

text \<open>The specification's step function from the strength to the gain byte.\<close>

definition strength_gain :: "EffectStrength \<Rightarrow> 8 word" where
  "strength_gain strength =
     (if strength = LIGHT then 54
      else if strength = MEDIUM \<or> strength = STRONG then 107
      else 0)"

section \<open>Lemmas about the arithmetic and the scan\<close>

lemma scan_stop: "\<not> i < ARRAY_SIZE lut \<Longrightarrow> scan lut b i = i"
  by (subst scan.simps) simp

lemma scan_found: "i < ARRAY_SIZE lut \<Longrightarrow> b \<le> brightness (lut ! i) \<Longrightarrow> scan lut b i = i"
  by (subst scan.simps) simp

lemma scan_next:
  "i < ARRAY_SIZE lut \<Longrightarrow> \<not> b \<le> brightness (lut ! i) \<Longrightarrow> scan lut b i = scan lut b (i + 1)"
  by (subst scan.simps) simp

lemma scan_cases:
  obtains (stop) "\<not> i < ARRAY_SIZE lut" "scan lut b i = i"
  | (found) "i < ARRAY_SIZE lut" "b \<le> brightness (lut ! i)" "scan lut b i = i"
  | (step) "i < ARRAY_SIZE lut" "\<not> b \<le> brightness (lut ! i)" "scan lut b i = scan lut b (i + 1)"
  using scan_stop scan_found scan_next by blast

lemma scan_ge: "i \<le> scan lut b i"
proof (induction lut b i rule: scan.induct)
  case (1 lut b i)
  show ?case
  proof (cases rule: scan_cases [where i = i and lut = lut and b = b])
    case stop then show ?thesis by simp
  next
    case found then show ?thesis by simp
  next
    case step
    from "1.IH" [OF step(1,2)] have "i + 1 \<le> scan lut b (i + 1)" .
    with step(3) show ?thesis by simp
  qed
qed

lemma scan_le: "i \<le> ARRAY_SIZE lut \<Longrightarrow> scan lut b i \<le> ARRAY_SIZE lut"
proof (induction lut b i rule: scan.induct)
  case (1 lut b i)
  show ?case
  proof (cases rule: scan_cases [where i = i and lut = lut and b = b])
    case stop with "1.prems" show ?thesis by simp
  next
    case found with "1.prems" show ?thesis by simp
  next
    case step
    from step(1) have "i + 1 \<le> ARRAY_SIZE lut" by simp
    from "1.IH" [OF step(1,2) this] step(3) show ?thesis by simp
  qed
qed

lemma scan_hit: "scan lut b i < ARRAY_SIZE lut \<Longrightarrow> b \<le> brightness (lut ! scan lut b i)"
proof (induction lut b i rule: scan.induct)
  case (1 lut b i)
  show ?case
  proof (cases rule: scan_cases [where i = i and lut = lut and b = b])
    case stop with "1.prems" show ?thesis by simp
  next
    case found then show ?thesis by simp
  next
    case step
    from "1.prems" step(3) have "scan lut b (i + 1) < ARRAY_SIZE lut" by simp
    from "1.IH" [OF step(1,2) this] step(3) show ?thesis by simp
  qed
qed

lemma scan_miss: "i \<le> j \<Longrightarrow> j < scan lut b i \<Longrightarrow> brightness (lut ! j) < b"
proof (induction lut b i rule: scan.induct)
  case (1 lut b i)
  show ?case
  proof (cases rule: scan_cases [where i = i and lut = lut and b = b])
    case stop with "1.prems" show ?thesis by simp
  next
    case found with "1.prems" show ?thesis by simp
  next
    case step
    show ?thesis
    proof (cases "j = i")
      case True
      with step(2) show ?thesis by (simp add: not_le)
    next
      case False
      with "1.prems" have "i + 1 \<le> j" by simp
      moreover from "1.prems" step(3) have "j < scan lut b (i + 1)" by simp
      ultimately show ?thesis using "1.IH" [OF step(1,2)] by simp
    qed
  qed
qed

lemma scan_all_below:
  assumes below: "\<And>j. j < ARRAY_SIZE lut \<Longrightarrow> brightness (lut ! j) < b"
  shows "scan lut b 0 = ARRAY_SIZE lut"
proof -
  have "\<not> scan lut b 0 < ARRAY_SIZE lut"
  proof
    assume lt: "scan lut b 0 < ARRAY_SIZE lut"
    from scan_hit [OF lt] have "b \<le> brightness (lut ! scan lut b 0)" .
    moreover from below [OF lt] have "brightness (lut ! scan lut b 0) < b" .
    ultimately show False by simp
  qed
  moreover have "scan lut b 0 \<le> ARRAY_SIZE lut" by (rule scan_le) simp
  ultimately show ?thesis by simp
qed

lemma lut_copied: "brightness_alpha_lut = brightness_alpha_lut_1"
  by code_simp

lemma abs_sdiv_le: "\<bar>a sdiv b\<bar> \<le> \<bar>a\<bar>" for a b :: int
proof -
  have "\<bar>a sdiv b\<bar> = \<bar>sgn a\<bar> * \<bar>sgn b\<bar> * \<bar>\<bar>a\<bar> div \<bar>b\<bar>\<bar>"
    by (simp add: signed_divide_int_def abs_mult)
  also have "\<dots> \<le> \<bar>\<bar>a\<bar> div \<bar>b\<bar>\<bar>"
    by (cases "a = 0"; cases "b = 0"; simp add: abs_sgn_eq)
  also have "\<dots> = \<bar>a\<bar> div \<bar>b\<bar>"
    by (simp add: div_int_pos_iff)
  also have "\<dots> \<le> \<bar>a\<bar>"
  proof (cases "b = 0")
    case True then show ?thesis by simp
  next
    case False
    then have "1 \<le> \<bar>b\<bar>" by simp
    then have "\<bar>a\<bar> div \<bar>b\<bar> \<le> \<bar>a\<bar> div 1"
      by (intro zdiv_mono2) simp_all
    then show ?thesis by simp
  qed
  finally show ?thesis .
qed

lemma abs_smod_2: "\<bar>a smod 2\<bar> \<le> 1" for a :: int
proof -
  have "\<bar>a\<bar> mod 2 < 2" by simp
  then show ?thesis
    by (cases "a = 0") (simp_all add: signed_modulo_int_def abs_mult abs_sgn_eq)
qed

lemma int_c_Inr: "\<bar>v\<bar> \<le> B \<Longrightarrow> B \<le> 2147483647 \<Longrightarrow> int_c v = Inr v"
  unfolding int_c_def INT_MIN_def INT_MAX_def by (simp add: abs_le_iff)

lemma thenF_Inr [simp]: "thenF (Inr v) f = f v"
  by (simp add: thenF_def)

lemma abs_mult_le: "\<bar>a\<bar> \<le> A \<Longrightarrow> \<bar>b\<bar> \<le> B \<Longrightarrow> \<bar>a * b\<bar> \<le> A * B" for a b :: int
  by (simp add: abs_mult mult_mono)

lemma interpolate_in_range:
  assumes xa: "0 \<le> xa" "xa < x" and xb: "x \<le> xb" "xb \<le> 2000"
    and ya: "0 \<le> ya" "ya \<le> 255" and yb: "0 \<le> yb" "yb \<le> 255"
  shows "interpolate x xa xb ya yb =
    Inr (ya + (2 * (yb - ya) * (x - xa)) sdiv (xb - xa) sdiv 2
            + (2 * (yb - ya) * (x - xa)) sdiv (xb - xa) smod 2
            + (if yb - ya = 0 then 0
               else (2 * (x - xa) * (x - xb)) sdiv (yb - ya) sdiv (xa - xb)))"
proof -
  define dy where "dy = yb - ya"
  define t where "t = x - xa"
  define u where "u = x - xb"
  define bf where "bf = (2 * dy * t) sdiv (xb - xa)"
  define q1 where "q1 = (2 * t * u) sdiv dy"
  define sub where "sub = (if dy = 0 then 0 else q1 sdiv (xa - xb))"
  have dy: "\<bar>dy\<bar> \<le> 255" using ya yb by (simp add: dy_def)
  have t: "\<bar>t\<bar> \<le> 2000" using xa xb by (simp add: t_def)
  have u: "\<bar>u\<bar> \<le> 2000" using xa xb by (simp add: u_def)
  have dx: "xb - xa \<noteq> 0" "xa - xb \<noteq> 0" using xa xb by simp_all
  have dxr: "\<bar>xb - xa\<bar> \<le> 2000" "\<bar>xa - xb\<bar> \<le> 2000" using xa xb by simp_all
  have m1: "\<bar>2 * dy\<bar> \<le> 510" using dy by simp
  have m2: "\<bar>2 * dy * t\<bar> \<le> 510 * 2000" using m1 t by (rule abs_mult_le)
  have bf: "\<bar>bf\<bar> \<le> 1020000"
    using abs_sdiv_le [of "2 * dy * t" "xb - xa"] m2 by (simp add: bf_def)
  have factor: "\<bar>bf sdiv 2\<bar> \<le> 1020000" using abs_sdiv_le [of bf 2] bf by simp
  have plus: "\<bar>bf smod 2\<bar> \<le> 1" by (rule abs_smod_2)
  have n1: "\<bar>2 * t\<bar> \<le> 4000" using t by simp
  have n2: "\<bar>2 * t * u\<bar> \<le> 4000 * 2000" using n1 u by (rule abs_mult_le)
  have q1: "\<bar>q1\<bar> \<le> 8000000"
    using abs_sdiv_le [of "2 * t * u" dy] n2 by (simp add: q1_def)
  have q2: "\<bar>q1 sdiv (xa - xb)\<bar> \<le> 8000000"
    using abs_sdiv_le [of q1 "xa - xb"] q1 by simp
  have sub: "\<bar>sub\<bar> \<le> 8000000" using q2 by (simp add: sub_def)
  have s1: "\<bar>ya + bf sdiv 2\<bar> \<le> 2147483647" using ya factor by linarith
  have s2: "\<bar>ya + bf sdiv 2 + bf smod 2\<bar> \<le> 2147483647" using ya factor plus by linarith
  have s3: "\<bar>ya + bf sdiv 2 + bf smod 2 + sub\<bar> \<le> 2147483647"
    using ya factor plus sub by linarith
  have c: "int_c dy = Inr dy" "int_c t = Inr t" "int_c u = Inr u"
    "int_c (xb - xa) = Inr (xb - xa)" "int_c (xa - xb) = Inr (xa - xb)"
    "int_c (2 * dy) = Inr (2 * dy)" "int_c (2 * dy * t) = Inr (2 * dy * t)"
    "int_c bf = Inr bf" "int_c (bf sdiv 2) = Inr (bf sdiv 2)"
    "int_c (2 * t) = Inr (2 * t)" "int_c (2 * t * u) = Inr (2 * t * u)"
    "int_c q1 = Inr q1" "int_c (q1 sdiv (xa - xb)) = Inr (q1 sdiv (xa - xb))"
    "int_c (ya + bf sdiv 2) = Inr (ya + bf sdiv 2)"
    "int_c (ya + bf sdiv 2 + bf smod 2) = Inr (ya + bf sdiv 2 + bf smod 2)"
    "int_c (ya + bf sdiv 2 + bf smod 2 + sub) = Inr (ya + bf sdiv 2 + bf smod 2 + sub)"
    by (rule int_c_Inr [OF dy], simp, rule int_c_Inr [OF t], simp, rule int_c_Inr [OF u], simp,
        rule int_c_Inr [OF dxr(1)], simp, rule int_c_Inr [OF dxr(2)], simp,
        rule int_c_Inr [OF m1], simp, rule int_c_Inr [OF m2], simp,
        rule int_c_Inr [OF bf], simp, rule int_c_Inr [OF factor], simp,
        rule int_c_Inr [OF n1], simp, rule int_c_Inr [OF n2], simp,
        rule int_c_Inr [OF q1], simp, rule int_c_Inr [OF q2], simp,
        rule int_c_Inr [OF s1], simp, rule int_c_Inr [OF s2], simp,
        rule int_c_Inr [OF s3], simp)
  have sub_eq: "interpolate_sub x xa xb ya yb = Inr sub"
    unfolding interpolate_sub_def c_sub_def c_mul_def c_div_def
      dy_def [symmetric] t_def [symmetric] u_def [symmetric]
    using dx by (simp add: c q1_def [symmetric] sub_def)
  have "interpolate x xa xb ya yb = Inr (ya + bf sdiv 2 + bf smod 2 + sub)"
    unfolding interpolate_def sub_eq c_add_def c_sub_def c_mul_def c_div_def c_rem_def
      dy_def [symmetric] t_def [symmetric]
    using dx by (simp add: c bf_def [symmetric])
  then show ?thesis
    by (simp add: sub_def bf_def q1_def dy_def t_def u_def)
qed

lemma sint_small: "uint w < 2147483648 \<Longrightarrow> sint w = uint w" for w :: "32 word"
proof -
  assume a: "uint w < 2147483648"
  have "sint w = signed_take_bit 31 (uint w)" by (simp add: sint_uint)
  also have "\<dots> = uint w"
  proof (rule signed_take_bit_int_eq_self)
    show "- (2 ^ 31) \<le> uint w" by (rule order_trans [OF _ uint_nonnegative]) simp
    show "uint w < 2 ^ 31" using a by simp
  qed
  finally show ?thesis .
qed

lemma sint_neg: "2147483648 \<le> uint w \<Longrightarrow> sint w < 0" for w :: "32 word"
proof -
  assume a: "2147483648 \<le> uint w"
  have b: "uint w < 4294967296" using uint_lt2p [of w] by simp
  have "sint w = signed_take_bit 31 (uint w)" by (simp add: sint_uint)
  also have "\<dots> = take_bit 32 (uint w + 2 ^ 31) - 2 ^ 31"
    by (simp add: signed_take_bit_eq_take_bit_shift)
  also have "take_bit 32 (uint w + 2 ^ 31) = (uint w + 2 ^ 31) mod 2 ^ 32"
    by (simp add: take_bit_eq_mod)
  also have "\<dots> = uint w + 2 ^ 31 - 2 ^ 32"
    using a b by (simp add: mod_pos_geq)
  finally show ?thesis using b by simp
qed

lemma lut_entries:
  "\<forall>e\<in>set brightness_alpha_lut. uint (brightness e) \<le> 2000 \<and> uint (alpha e) \<le> 255"
  by (simp add: lut_copied brightness_alpha_lut_1_def mk_ba_def)

lemma lut_length: "length brightness_alpha_lut = 21"
  by (simp add: lut_copied brightness_alpha_lut_1_def)

lemma lut_first: "brightness_alpha_lut ! 0 = mk_ba 0 0xff"
  by (simp add: lut_copied brightness_alpha_lut_1_def)

lemma lut_last: "brightness_alpha_lut ! 20 = mk_ba 2000 0x83"
  by (simp add: lut_copied brightness_alpha_lut_1_def)

lemma lut_nth:
  assumes "i < 21"
  shows "uint (brightness (brightness_alpha_lut ! i)) \<le> 2000"
    and "uint (alpha (brightness_alpha_lut ! i)) \<le> 255"
    and "sint (brightness (brightness_alpha_lut ! i)) = uint (brightness (brightness_alpha_lut ! i))"
    and "sint (alpha (brightness_alpha_lut ! i)) = uint (alpha (brightness_alpha_lut ! i))"
proof -
  from assms have "brightness_alpha_lut ! i \<in> set brightness_alpha_lut"
    by (simp add: lut_length)
  with lut_entries show b: "uint (brightness (brightness_alpha_lut ! i)) \<le> 2000"
    and a: "uint (alpha (brightness_alpha_lut ! i)) \<le> 255" by blast+
  from b show "sint (brightness (brightness_alpha_lut ! i)) = uint (brightness (brightness_alpha_lut ! i))"
    by (intro sint_small) simp
  from a show "sint (alpha (brightness_alpha_lut ! i)) = uint (alpha (brightness_alpha_lut ! i))"
    by (intro sint_small) simp
qed

section \<open>Lemmas about brightness_to_alpha\<close>

lemma at_index_nth: "i < length lut \<Longrightarrow> at_index lut (int i) = Inr (lut ! i)"
  by (simp add: at_index_def)

lemma scan_lut_cases:
  fixes x :: "32 word"
  defines "i \<equiv> scan brightness_alpha_lut x 0"
  shows "(uint x = 0 \<longrightarrow> i = 0) \<and> (0 < uint x \<and> uint x \<le> 2000 \<longrightarrow> 0 < i \<and> i < 21)
    \<and> (2000 < uint x \<longrightarrow> i = 21)"
proof (intro conjI)
  show "uint x = 0 \<longrightarrow> i = 0"
  proof
  assume "uint x = 0"
  then have "x \<le> brightness (brightness_alpha_lut ! 0)"
    by (simp add: word_le_def)
  then show "i = 0"
    unfolding i_def by (intro scan_found) (simp_all add: ARRAY_SIZE_def lut_length)
  qed
next
  show "2000 < uint x \<longrightarrow> i = 21"
  proof
  assume big: "2000 < uint x"
  have "scan brightness_alpha_lut x 0 = ARRAY_SIZE brightness_alpha_lut"
  proof (rule scan_all_below)
    fix j assume "j < ARRAY_SIZE brightness_alpha_lut"
    then have "j < 21" by (simp add: ARRAY_SIZE_def lut_length)
    from lut_nth(1) [OF this] big show "brightness (brightness_alpha_lut ! j) < x"
      by (simp add: word_less_def)
  qed
  then show "i = 21" by (simp add: i_def ARRAY_SIZE_def lut_length)
  qed
next
  show "0 < uint x \<and> uint x \<le> 2000 \<longrightarrow> 0 < i \<and> i < 21"
  proof
  assume mid: "0 < uint x \<and> uint x \<le> 2000"
  have "i \<noteq> 0"
  proof
    assume "i = 0"
    then have "scan brightness_alpha_lut x 0 < ARRAY_SIZE brightness_alpha_lut"
      by (simp add: i_def ARRAY_SIZE_def lut_length)
    from scan_hit [OF this] \<open>i = 0\<close> have "x \<le> brightness (brightness_alpha_lut ! 0)"
      by (simp add: i_def)
    with mid show False by (simp add: word_le_def lut_first mk_ba_def)
  qed
  moreover have "i \<noteq> 21"
  proof
    assume "i = 21"
    then have "20 < scan brightness_alpha_lut x 0" by (simp add: i_def)
    from scan_miss [OF _ this] have "brightness (brightness_alpha_lut ! 20) < x" by simp
    with mid show False by (simp add: word_less_def lut_last mk_ba_def)
  qed
  moreover have "i \<le> 21"
    using scan_le [of 0 brightness_alpha_lut x] by (simp add: i_def ARRAY_SIZE_def lut_length)
  ultimately show "0 < i \<and> i < 21" by simp
  qed
qed

lemma brightness_to_alpha_floor:
  "uint x = 0 \<Longrightarrow> brightness_to_alpha brightness_alpha_lut x = Inr 255"
proof -
  assume "uint x = 0"
  with scan_lut_cases [of x] have "scan brightness_alpha_lut x 0 = 0" by simp
  then show ?thesis
    by (simp add: brightness_to_alpha_def at_index_def lut_length lut_first mk_ba_def)
qed

lemma brightness_to_alpha_ceiling:
  "2000 < uint x \<Longrightarrow> brightness_to_alpha brightness_alpha_lut x = Inr 131"
proof -
  assume "2000 < uint x"
  with scan_lut_cases [of x] have "scan brightness_alpha_lut x 0 = 21" by simp
  then show ?thesis
    by (simp add: brightness_to_alpha_def at_index_def ARRAY_SIZE_def lut_length lut_last mk_ba_def)
qed

lemma brightness_to_alpha_between:
  assumes i: "scan brightness_alpha_lut x 0 = i" "0 < i" "i < 21"
  defines "xa \<equiv> uint (brightness (brightness_alpha_lut ! (i - 1)))"
    and "xb \<equiv> uint (brightness (brightness_alpha_lut ! i))"
    and "ya \<equiv> uint (alpha (brightness_alpha_lut ! (i - 1)))"
    and "yb \<equiv> uint (alpha (brightness_alpha_lut ! i))"
  shows "xa < sint x" and "sint x \<le> xb" and "sint x = uint x"
    and "brightness_to_alpha brightness_alpha_lut x = interpolate (sint x) xa xb ya yb"
    and "interpolate (sint x) xa xb ya yb =
      Inr (ya + (2 * (yb - ya) * (sint x - xa)) sdiv (xb - xa) sdiv 2
              + (2 * (yb - ya) * (sint x - xa)) sdiv (xb - xa) smod 2
              + (if yb - ya = 0 then 0
                 else (2 * (sint x - xa) * (sint x - xb)) sdiv (yb - ya) sdiv (xa - xb)))"
proof -
  have lo: "i - Suc 0 < 21" and hi: "i < 21" using i by simp_all
  have "scan brightness_alpha_lut x 0 < ARRAY_SIZE brightness_alpha_lut"
    using i by (simp add: ARRAY_SIZE_def lut_length)
  from scan_hit [OF this] have up: "uint x \<le> xb"
    by (simp add: i(1) word_le_def xb_def)
  have "i - 1 < scan brightness_alpha_lut x 0" using i by simp
  from scan_miss [OF _ this] have down: "xa < uint x"
    by (simp add: word_less_def xa_def)
  have xb: "xb \<le> 2000" using lut_nth(1) [OF hi] by (simp add: xb_def)
  have xa: "0 \<le> xa" by (simp add: xa_def)
  have ya: "0 \<le> ya" "ya \<le> 255" using lut_nth(2) [OF lo] by (simp_all add: ya_def)
  have yb: "0 \<le> yb" "yb \<le> 255" using lut_nth(2) [OF hi] by (simp_all add: yb_def)
  show sx: "sint x = uint x" using up xb by (intro sint_small) simp
  show "xa < sint x" "sint x \<le> xb" using up down by (simp_all add: sx)
  have ats: "at_index brightness_alpha_lut (int i - 1) = Inr (brightness_alpha_lut ! (i - 1))"
    "at_index brightness_alpha_lut (int i) = Inr (brightness_alpha_lut ! i)"
    using i by (simp_all add: at_index_def lut_length nat_diff_distrib)
  show "brightness_to_alpha brightness_alpha_lut x = interpolate (sint x) xa xb ya yb"
    using i
    by (simp add: brightness_to_alpha_def ARRAY_SIZE_def lut_length ats
        lut_nth(3,4) [OF lo] lut_nth(3,4) [OF hi] xa_def xb_def ya_def yb_def)
  show "interpolate (sint x) xa xb ya yb =
      Inr (ya + (2 * (yb - ya) * (sint x - xa)) sdiv (xb - xa) sdiv 2
              + (2 * (yb - ya) * (sint x - xa)) sdiv (xb - xa) smod 2
              + (if yb - ya = 0 then 0
                 else (2 * (sint x - xa) * (sint x - xb)) sdiv (yb - ya) sdiv (xa - xb)))"
    using xa down up xb ya yb by (intro interpolate_in_range) (simp_all add: sx)
qed

lemma brightness_to_alpha_total:
  "\<exists>v. brightness_to_alpha brightness_alpha_lut x = Inr v"
proof -
  consider "uint x = 0" | "0 < uint x" "uint x \<le> 2000" | "2000 < uint x"
    using uint_nonnegative [of x] by linarith
  then show ?thesis
  proof cases
    case 1 then show ?thesis by (simp add: brightness_to_alpha_floor)
  next
    case 2
    with scan_lut_cases [of x]
    have "0 < scan brightness_alpha_lut x 0" "scan brightness_alpha_lut x 0 < 21" by simp_all
    from brightness_to_alpha_between(4,5) [OF refl this] show ?thesis by simp
  next
    case 3 then show ?thesis by (simp add: brightness_to_alpha_ceiling)
  qed
qed

section \<open>Lemmas about the double arithmetic\<close>

lemma normalize_quotient_up:
  "0 < n \<Longrightarrow> k < fuel \<Longrightarrow> 2 ^ 52 * d \<le> n * 2 ^ k \<Longrightarrow> n * 2 ^ k < 2 ^ 53 * d
    \<Longrightarrow> normalize_quotient fuel n d e = Some (n * 2 ^ k, d, e - int k)"
proof (induction k arbitrary: n e fuel)
  case 0
  then obtain f where "fuel = Suc f" by (cases fuel) auto
  with 0 show ?case by simp
next
  case (Suc k)
  then obtain f where fuel: "fuel = Suc f" and kf: "k < f" by (cases fuel) auto
  have "1 \<le> (2::int) ^ k" by simp
  with \<open>0 < n\<close> have "n * 2 \<le> n * 2 * 2 ^ k"
    by (metis mult.commute mult_le_cancel_left1 mult_pos_pos zero_less_numeral linorder_not_less order_less_imp_le)
  with Suc.prems(4) have low: "n < 2 ^ 52 * d" by simp
  have "normalize_quotient f (2 * n) d (e - 1) = Some (2 * n * 2 ^ k, d, e - 1 - int k)"
    using Suc.prems by (intro Suc.IH kf) (simp_all add: mult.assoc)
  with low fuel show ?case by (simp add: mult.assoc)
qed

lemma normalize_quotient_down:
  "0 < d \<Longrightarrow> j < fuel \<Longrightarrow> 2 ^ 52 * (d * 2 ^ j) \<le> n \<Longrightarrow> n < 2 ^ 53 * (d * 2 ^ j)
    \<Longrightarrow> normalize_quotient fuel n d e = Some (n, d * 2 ^ j, e + int j)"
proof (induction j arbitrary: d e fuel)
  case 0
  then obtain f where "fuel = Suc f" by (cases fuel) auto
  with 0 show ?case by simp
next
  case (Suc j)
  then obtain f where fuel: "fuel = Suc f" and jf: "j < f" by (cases fuel) auto
  have "1 \<le> (2::int) ^ j" by simp
  with \<open>0 < d\<close> have "d * 2 \<le> d * 2 * 2 ^ j"
    by (metis mult.commute mult_le_cancel_left1 mult_pos_pos zero_less_numeral linorder_not_less order_less_imp_le)
  with Suc.prems(3) have high: "2 ^ 53 * d \<le> n" by simp
  then have nlow: "\<not> n < 2 ^ 52 * d" using \<open>0 < d\<close> by simp
  have "normalize_quotient f n (2 * d) (e + 1) = Some (n, 2 * d * 2 ^ j, e + 1 + int j)"
    using Suc.prems by (intro Suc.IH jf) (simp_all add: mult.assoc mult.left_commute)
  with high nlow fuel show ?case by (simp add: mult.assoc mult.left_commute)
qed



lemma normalize_small:
  assumes "0 < n" "n < 256"
  shows "normalize_quotient 2200 n 1 e =
     (      if n < 2 then Some (n * 4503599627370496, 1, e - 52)
      else if n < 4 then Some (n * 2251799813685248, 1, e - 51)
      else if n < 8 then Some (n * 1125899906842624, 1, e - 50)
      else if n < 16 then Some (n * 562949953421312, 1, e - 49)
      else if n < 32 then Some (n * 281474976710656, 1, e - 48)
      else if n < 64 then Some (n * 140737488355328, 1, e - 47)
      else if n < 128 then Some (n * 70368744177664, 1, e - 46)
      else if n < 256 then Some (n * 35184372088832, 1, e - 45)
      else None)"
proof -
  consider "n < 2" | "2 \<le> n" "n < 4" | "4 \<le> n" "n < 8" | "8 \<le> n" "n < 16" | "16 \<le> n" "n < 32"
    | "32 \<le> n" "n < 64" | "64 \<le> n" "n < 128" | "128 \<le> n" using assms by linarith
  then show ?thesis
  proof cases
    case 1 with assms show ?thesis using normalize_quotient_up [of n 52 2200 1 e] by simp
  next
    case 2 with assms show ?thesis using normalize_quotient_up [of n 51 2200 1 e] by simp
  next
    case 3 with assms show ?thesis using normalize_quotient_up [of n 50 2200 1 e] by simp
  next
    case 4 with assms show ?thesis using normalize_quotient_up [of n 49 2200 1 e] by simp
  next
    case 5 with assms show ?thesis using normalize_quotient_up [of n 48 2200 1 e] by simp
  next
    case 6 with assms show ?thesis using normalize_quotient_up [of n 47 2200 1 e] by simp
  next
    case 7 with assms show ?thesis using normalize_quotient_up [of n 46 2200 1 e] by simp
  next
    case 8 with assms show ?thesis using normalize_quotient_up [of n 45 2200 1 e] by simp
  qed
qed

lemma normalize_significand:
  assumes "4503599627370496 \<le> n" "n < 18014398509481984"
  shows "normalize_quotient 2200 n 1 e = (if n < 9007199254740992 then Some (n, 1, e) else Some (n, 2, e + 1))"
proof (cases "n < 9007199254740992")
  case True
  with assms show ?thesis using normalize_quotient_up [of n 0 2200 1 e] by simp
next
  case False
  with assms show ?thesis using normalize_quotient_down [of 1 1 2200 n e] by simp
qed

lemma normalize_product:
  assumes "20282409603651670423947251286016 \<le> n" "n < 81129638414606681695789005144064"
  shows "normalize_quotient 2200 n 1 e =
     (if n < 40564819207303340847894502572032 then Some (n, 4503599627370496, e + 52) else Some (n, 9007199254740992, e + 53))"
proof (cases "n < 40564819207303340847894502572032")
  case True
  with assms show ?thesis using normalize_quotient_down [of 1 52 2200 n e] by simp
next
  case False
  with assms show ?thesis using normalize_quotient_down [of 1 53 2200 n e] by simp
qed

lemma normalize_ratio:
  assumes "4503599627370496 \<le> n" "n < 9007199254740992" "4503599627370496 \<le> d" "d < 9007199254740992"
  shows "normalize_quotient 2200 n d e =
     (if n < d then Some (n * 9007199254740992, d, e - 53) else Some (n * 4503599627370496, d, e - 52))"
proof (cases "n < d")
  case True
  with assms show ?thesis using normalize_quotient_up [of n 53 2200 d e] by simp
next
  case False
  with assms show ?thesis using normalize_quotient_up [of n 52 2200 d e] by simp
qed

lemmas normalize_quotient_jumps = normalize_small normalize_significand normalize_product normalize_ratio

lemmas dbl_defs = rtp_input_value_def double_of_int_def double_div_def double_mul_def double_add_def
  round_double_def nearest_even_def std_round_def MAX_RTP_INPUT_def MIN_RTP_INPUT_def
  INT_MIN_def INT_MAX_def Let_def

lemma bind_weak_cong: "m = m' \<Longrightarrow> Option.bind m f = Option.bind m' f"
  by simp

section \<open>The claims about brightness_to_alpha and getDimAmount\<close>

text \<open>
  Claim C1, as the code has it. Let \<open>i\<close> be the index at which the scan stops, with
  \<open>0 < i < 21\<close>, and let \<open>dy = alpha[i] - alpha[i-1]\<close>, \<open>dx = brightness[i] - brightness[i-1]\<close>
  and \<open>t = input - brightness[i-1]\<close>. Then \<open>brightness_to_alpha\<close> returns
  \<open>alpha[i-1] + factor + plus + sub\<close>, where \<open>bf = 2*dy*t / dx\<close>, \<open>factor = bf / 2\<close>,
  \<open>plus\<close> is the remainder of \<open>bf\<close> by 2 and, when \<open>dx\<close> and \<open>dy\<close> are nonzero,
  \<open>sub = 2*t*(input - brightness[i]) / dy / (brightness[i-1] - brightness[i])\<close>: the
  second division is by \<open>xa - xb\<close>, that is by \<open>- dx\<close>. All divisions truncate.
\<close>

theorem interpolate_between_entries:
  assumes "scan brightness_alpha_lut x 0 = i" and "0 < i" and "i < 21"
  shows "brightness_to_alpha brightness_alpha_lut x =
    (let xa = uint (brightness (brightness_alpha_lut ! (i - 1)));
         xb = uint (brightness (brightness_alpha_lut ! i));
         ya = uint (alpha (brightness_alpha_lut ! (i - 1)));
         yb = uint (alpha (brightness_alpha_lut ! i));
         dy = yb - ya; dx = xb - xa; t = sint x - xa;
         bf = (2 * dy * t) sdiv dx;
         factor = bf sdiv 2;
         plus = bf smod 2;
         sub = (if dx \<noteq> 0 \<and> dy \<noteq> 0
                then (2 * t * (sint x - xb)) sdiv dy sdiv (xa - xb) else 0)
     in Inr (ya + factor + plus + sub))"
proof -
  note b = brightness_to_alpha_between [OF assms]
  from b(1,2) have "uint (brightness (brightness_alpha_lut ! i))
      - uint (brightness (brightness_alpha_lut ! (i - 1))) \<noteq> 0" by simp
  with b(4,5) show ?thesis by (simp add: Let_def)
qed

text \<open>The theorem at brightness 1500, between the entries for 1023 and 2000.\<close>

theorem interpolate_between_entries_witness:
  "scan brightness_alpha_lut 1500 0 = 20 \<and> brightness_to_alpha brightness_alpha_lut 1500 = Inr 90"
proof -
  have s: "scan brightness_alpha_lut 1500 0 = 20" by code_simp
  have e: "brightness_alpha_lut ! 19 = mk_ba 1023 0x2a" "brightness_alpha_lut ! 20 = mk_ba 2000 0x83"
    by (simp_all add: lut_copied brightness_alpha_lut_1_def)
  have v: "(2 * (131 - 42) * (1500 - 1023)) sdiv (2000 - 1023) = (86::int)"
    "(86::int) sdiv 2 = 43" "(86::int) smod 2 = 0"
    "(2 * (1500 - 1023) * (1500 - 2000)) sdiv (131 - 42) sdiv (1023 - 2000) = (5::int)"
    by (simp_all add: signed_divide_int_def signed_modulo_int_def)
  from interpolate_between_entries [OF s] have
    "brightness_to_alpha brightness_alpha_lut 1500 = Inr 90"
    using v by (simp add: e mk_ba_def Let_def)
  with s show ?thesis by simp
qed

text \<open>
  Claim C1 as the specification states it, with the second division by \<open>dx\<close>, fails at
  brightness 1500: the scan stops at index 20, the code returns 90 and the stated
  formula gives 80.
\<close>

theorem spec_interpolate_counterexample:
  "scan brightness_alpha_lut 1500 0 = 20 \<and>
   brightness_to_alpha brightness_alpha_lut 1500 = Inr 90 \<and>
   spec_interpolate (sint (1500 :: 32 word))
     (uint (brightness (brightness_alpha_lut ! 19))) (uint (brightness (brightness_alpha_lut ! 20)))
     (uint (alpha (brightness_alpha_lut ! 19))) (uint (alpha (brightness_alpha_lut ! 20))) = 80"
  by code_simp

text \<open>
  Claim C2 says that every brightness below the first entry, so every negative one,
  yields the first entry's alpha \<open>0xff\<close>. The code compares the \<open>int\<close> argument with the
  \<open>uint32_t\<close> table value as unsigned numbers, so \<open>-5\<close> is above every entry, the scan
  runs to the end and the result is the last entry's alpha \<open>0x83\<close>. At 0 the first
  entry's alpha is returned.
\<close>

theorem negative_brightness_reaches_ceiling:
  "sint (- 5 :: 32 word) = - 5 \<and>
   brightness_to_alpha brightness_alpha_lut (- 5) = Inr 0x83 \<and>
   brightness_to_alpha brightness_alpha_lut 0 = Inr 0xff"
  by code_simp

text \<open>
  Claim C3: for every brightness at or above 2000, the brightness of the last entry,
  \<open>brightness_to_alpha\<close> returns the last entry's alpha \<open>0x83\<close>.
\<close>

theorem ceiling_clamp:
  assumes "2000 \<le> sint x"
  shows "brightness_to_alpha brightness_alpha_lut x = Inr 0x83"
proof -
  have u: "uint x < 2147483648"
  proof (rule ccontr)
    assume "\<not> uint x < 2147483648"
    then have "sint x < 0" by (intro sint_neg) simp
    with assms show False by simp
  qed
  then have sx: "sint x = uint x" by (rule sint_small)
  show ?thesis
  proof (cases "uint x = 2000")
    case True
    then have "x = 2000" by (simp add: word_uint_eq_iff)
    moreover have "brightness_to_alpha brightness_alpha_lut 2000 = Inr 0x83" by code_simp
    ultimately show ?thesis by simp
  next
    case False
    with assms sx have "2000 < uint x" by simp
    then show ?thesis by (simp add: brightness_to_alpha_ceiling)
  qed
qed

text \<open>The two values that the claim names, 2000 and 5000.\<close>

theorem ceiling_clamp_witness:
  "2000 \<le> sint (2000 :: 32 word) \<and> brightness_to_alpha brightness_alpha_lut 2000 = Inr 0x83 \<and>
   2000 \<le> sint (5000 :: 32 word) \<and> brightness_to_alpha brightness_alpha_lut 5000 = Inr 0x83"
proof -
  have a: "2000 \<le> sint (2000 :: 32 word)" and b: "2000 \<le> sint (5000 :: 32 word)" by simp_all
  from ceiling_clamp [OF a] ceiling_clamp [OF b] a b show ?thesis by simp
qed

text \<open>
  Claim C7: \<open>getDimAmount\<close> reads the panel brightness, 0 when the read fails, and
  computes \<open>brightness_to_alpha\<close> of it; the result is 42 whenever the high-brightness
  mode file reads 5, whatever the brightness, and the computed alpha otherwise.
\<close>

theorem getDimAmount_hbm_override:
  "getDimAmount brightness_alpha_lut env arg =
     (if (case env HBM_PATH of None \<Rightarrow> 0 | Some h \<Rightarrow> h) = 5 then Inr 42
      else brightness_to_alpha brightness_alpha_lut
             (case env PANEL_BRIGHTNESS_PATH of None \<Rightarrow> 0 | Some b \<Rightarrow> b))"
proof -
  obtain v where "brightness_to_alpha brightness_alpha_lut
      (get_sysfs env PANEL_BRIGHTNESS_PATH 0) = Inr v"
    using brightness_to_alpha_total by blast
  then show ?thesis
    by (simp add: getDimAmount_def get_sysfs_def Let_def)
qed

text \<open>
  The override at brightness 1500 and at a failed brightness read, and the computed
  alpha when the mode reads 4.
\<close>

theorem getDimAmount_hbm_override_witness:
  "getDimAmount brightness_alpha_lut (\<lambda>p. if p = HBM_PATH then Some 5 else Some 1500) 7 = Inr 42 \<and>
   getDimAmount brightness_alpha_lut (\<lambda>p. if p = HBM_PATH then Some 5 else None) 7 = Inr 42 \<and>
   getDimAmount brightness_alpha_lut (\<lambda>p. if p = HBM_PATH then Some 4 else None) 7 = Inr 0xff"
  using getDimAmount_hbm_override [of "\<lambda>p. if p = HBM_PATH then Some 5 else Some 1500" 7]
    getDimAmount_hbm_override [of "\<lambda>p. if p = HBM_PATH then Some 5 else None" 7]
    getDimAmount_hbm_override [of "\<lambda>p. if p = HBM_PATH then Some 4 else None" 7]
  by (simp add: HBM_PATH_def PANEL_BRIGHTNESS_PATH_def brightness_to_alpha_floor)

text \<open>
  Claim C9: for every value of the \<open>int\<close> argument, negative ones included,
  \<open>brightness_to_alpha\<close> returns a value: no table index leaves the array, no division
  is by zero and no signed operation overflows. The table's brightness values are
  strictly increasing.
\<close>

theorem brightness_to_alpha_never_faults:
  "(\<exists>v. brightness_to_alpha brightness_alpha_lut x = Inr v) \<and>
   sorted_wrt (<) (map brightness brightness_alpha_lut)"
proof
  show "\<exists>v. brightness_to_alpha brightness_alpha_lut x = Inr v"
    by (rule brightness_to_alpha_total)
  show "sorted_wrt (<) (map brightness brightness_alpha_lut)"
    by (simp add: lut_copied brightness_alpha_lut_1_def mk_ba_def)
qed

text \<open>Two inputs: \<open>-5\<close>, and 70, which is a table brightness.\<close>

theorem brightness_to_alpha_never_faults_witness:
  "(\<exists>v. brightness_to_alpha brightness_alpha_lut (- 5) = Inr v) \<and>
   (\<exists>v. brightness_to_alpha brightness_alpha_lut 70 = Inr v)"
  using brightness_to_alpha_never_faults [of "- 5"] brightness_to_alpha_never_faults [of 70]
  by simp

text \<open>
  Claim C10: the result of \<open>getDimAmount\<close> does not depend on its argument. Two calls
  with any two arguments, in two environments whose panel-brightness reads agree and
  whose high-brightness-mode reads agree, return the same dim amount, whatever else
  the environments hold.
\<close>

theorem getDimAmount_ignores_argument:
  assumes "env1 PANEL_BRIGHTNESS_PATH = env2 PANEL_BRIGHTNESS_PATH"
    and "env1 HBM_PATH = env2 HBM_PATH"
  shows "getDimAmount lut env1 arg1 = getDimAmount lut env2 arg2"
  using assms by (simp add: getDimAmount_def get_sysfs_def)

text \<open>
  Arguments 0 and 9, in two environments that read brightness 50 and mode 0 and differ
  on every other file; both calls return 206.
\<close>

theorem getDimAmount_ignores_argument_witness:
  "(\<lambda>p. if p = PANEL_BRIGHTNESS_PATH then Some 50 else if p = HBM_PATH then Some 0 else Some 7)
     PANEL_BRIGHTNESS_PATH =
   (\<lambda>p. if p = PANEL_BRIGHTNESS_PATH then Some 50 else if p = HBM_PATH then Some 0 else None)
     PANEL_BRIGHTNESS_PATH \<and>
   (\<lambda>p. if p = PANEL_BRIGHTNESS_PATH then Some 50 else if p = HBM_PATH then Some 0 else Some 7)
     HBM_PATH =
   (\<lambda>p. if p = PANEL_BRIGHTNESS_PATH then Some 50 else if p = HBM_PATH then Some 0 else None)
     HBM_PATH \<and>
   (\<lambda>p. if p = PANEL_BRIGHTNESS_PATH then Some 50 else if p = HBM_PATH then Some 0 else Some (7 :: int32_t))
     DIM_AMOUNT_PATH \<noteq>
   (\<lambda>p. if p = PANEL_BRIGHTNESS_PATH then Some 50 else if p = HBM_PATH then Some 0 else None)
     DIM_AMOUNT_PATH \<and>
   getDimAmount brightness_alpha_lut
     (\<lambda>p. if p = PANEL_BRIGHTNESS_PATH then Some 50 else if p = HBM_PATH then Some 0 else Some 7) 0 =
   getDimAmount brightness_alpha_lut
     (\<lambda>p. if p = PANEL_BRIGHTNESS_PATH then Some 50 else if p = HBM_PATH then Some 0 else None) 9 \<and>
   getDimAmount brightness_alpha_lut
     (\<lambda>p. if p = PANEL_BRIGHTNESS_PATH then Some 50 else if p = HBM_PATH then Some 0 else None) 9 =
   Inr 206"
proof -
  let ?e1 = "\<lambda>p. if p = PANEL_BRIGHTNESS_PATH then Some 50 else if p = HBM_PATH then Some 0
                  else Some (7 :: int32_t)"
  let ?e2 = "\<lambda>p. if p = PANEL_BRIGHTNESS_PATH then Some 50 else if p = HBM_PATH then Some 0
                  else (None :: int32_t option)"
  have a: "?e1 PANEL_BRIGHTNESS_PATH = ?e2 PANEL_BRIGHTNESS_PATH" by simp
  have b: "?e1 HBM_PATH = ?e2 HBM_PATH" by simp
  have c: "?e1 DIM_AMOUNT_PATH \<noteq> ?e2 DIM_AMOUNT_PATH"
    by (simp add: DIM_AMOUNT_PATH_def PANEL_BRIGHTNESS_PATH_def HBM_PATH_def)
  have v: "brightness_to_alpha brightness_alpha_lut 50 = Inr 206" by code_simp
  have d: "getDimAmount brightness_alpha_lut ?e2 9 = Inr 206"
    by (simp add: getDimAmount_def get_sysfs_def v PANEL_BRIGHTNESS_PATH_def HBM_PATH_def)
  from getDimAmount_ignores_argument [of ?e1 ?e2 brightness_alpha_lut 0 9, OF a b] a b c d
  show ?thesis by simp
qed

section \<open>The claims about the vibrator\<close>

lemma fold_set_sysfs:
  "fold (\<lambda>v. set_sysfs path (Str_val v)) vs s =
     s\<lparr>writes := writes s @ map (\<lambda>v. (path, Str_val v)) vs\<rparr>"
  by (induction vs arbitrary: s) (simp_all add: set_sysfs_def)

lemma setEffect_writes:
  "setEffect (Some qs) (Some cs) dur (Some VMAX) (Some GAIN) s =
     s\<lparr>writes := writes s @ descriptor_writes
        \<lparr>sequences = qs, ctrl_loops = cs, duration_override = dur, nominal_ms = ms\<rparr>\<rparr>"
  by (cases dur)
     (simp_all add: setEffect_def descriptor_writes_def fold_set_sysfs set_sysfs_def
        VMAX_def GAIN_def)

lemma setEffect_writes_empty:
  "setEffect None None dur (Some VMAX) (Some GAIN) s =
     s\<lparr>writes := writes s @ descriptor_writes
        \<lparr>sequences = [], ctrl_loops = [], duration_override = dur, nominal_ms = ms\<rparr>\<rparr>"
  by (cases dur)
     (simp_all add: setEffect_def descriptor_writes_def set_sysfs_def VMAX_def GAIN_def)

lemma on_waveform_writes:
  "mShouldSetBrightness s \<Longrightarrow> on t True s =
     (OK, s\<lparr>writes := writes s @
        [(CTRL_LOOP_PATH, U8_val 1), (DURATION_PATH, U32_val t),
         (MODE_PATH, Str_val ''waveform''), (LRA_WAVE_SHAPE_PATH, U8_val 1),
         (BRIGHTNESS_PATH, Int_val 1)]\<rparr>)"
  by (simp add: on_def set_sysfs_def Let_def LOOP_MODE_OPEN_def WAVEFORM_MODE_def SINE_WAVE_def)

lemma convertEffectStrength_gain: "convertEffectStrength strength = strength_gain strength"
  by (cases strength) (simp_all add: convertEffectStrength_def strength_gain_def)

text \<open>
  Claim C4: for each of CLICK, DOUBLE_CLICK, TICK, HEAVY_CLICK, POP and THUD and any
  strength, \<open>performEffect\<close> issues the writes of the effect's descriptor in order
  (activate 0, ignore-store 0, the duration override if there is one, the maximum
  voltage, the gain, every sequence entry, every control-loop entry), then writes the
  gain byte of the strength to the scale file, sets \<open>mShouldSetBrightness\<close>, runs \<open>on\<close>
  with the nominal duration in waveform mode and reports \<open>OK\<close> with the nominal
  duration. The last conjunct lists the writes of that call of \<open>on\<close>.
\<close>

theorem performEffect_recognized:
  assumes "effect \<in> {CLICK, DOUBLE_CLICK, TICK, HEAVY_CLICK, POP, THUD}"
  shows "\<exists>d. descriptor effect = Some d \<and>
    performEffect effect strength s =
      ((OK, nominal_ms d),
       snd (on (nominal_ms d) True
         (s\<lparr>mShouldSetBrightness := True,
            writes := writes s @ descriptor_writes d
                      @ [(SCALE_PATH, U8_val (strength_gain strength))]\<rparr>))) \<and>
    snd (performEffect effect strength s) =
      s\<lparr>mShouldSetBrightness := True,
        writes := writes s @ descriptor_writes d
                  @ [(SCALE_PATH, U8_val (strength_gain strength))]
                  @ [(CTRL_LOOP_PATH, U8_val 1), (DURATION_PATH, U32_val (nominal_ms d)),
                     (MODE_PATH, Str_val ''waveform''), (LRA_WAVE_SHAPE_PATH, U8_val 1),
                     (BRIGHTNESS_PATH, Int_val 1)]\<rparr>"
proof -
  from assms consider "effect = CLICK" | "effect = DOUBLE_CLICK" | "effect = TICK"
    | "effect = HEAVY_CLICK" | "effect = POP" | "effect = THUD" by blast
  then show ?thesis
  proof cases
    case 1 then show ?thesis
      by (simp add: performEffect_def descriptor_def setEffect_writes [where ms = WAVEFORM_CLICK_EFFECT_MS]
          convertEffectStrength_gain set_sysfs_def on_waveform_writes)
  next
    case 2 then show ?thesis
      by (simp add: performEffect_def descriptor_def setEffect_writes [where ms = WAVEFORM_DOUBLE_CLICK_EFFECT_MS]
          convertEffectStrength_gain set_sysfs_def on_waveform_writes)
  next
    case 3 then show ?thesis
      by (simp add: performEffect_def descriptor_def setEffect_writes [where ms = WAVEFORM_TICK_EFFECT_MS]
          convertEffectStrength_gain set_sysfs_def on_waveform_writes)
  next
    case 4 then show ?thesis
      by (simp add: performEffect_def descriptor_def setEffect_writes [where ms = WAVEFORM_HEAVY_CLICK_EFFECT_MS]
          convertEffectStrength_gain set_sysfs_def on_waveform_writes)
  next
    case 5 then show ?thesis
      by (simp add: performEffect_def descriptor_def setEffect_writes_empty [where ms = WAVEFORM_POP_EFFECT_MS]
          convertEffectStrength_gain set_sysfs_def on_waveform_writes)
  next
    case 6 then show ?thesis
      by (simp add: performEffect_def descriptor_def setEffect_writes_empty [where ms = WAVEFORM_THUD_EFFECT_MS]
          convertEffectStrength_gain set_sysfs_def on_waveform_writes)
  qed
qed

text \<open>DOUBLE_CLICK at strength LIGHT, from a state without writes.\<close>

theorem performEffect_recognized_witness:
  "performEffect DOUBLE_CLICK LIGHT \<lparr>mShouldSetBrightness = False, writes = []\<rparr> =
     ((OK, 10),
      \<lparr>mShouldSetBrightness = True,
       writes = [(ACTIVATE_PATH, Int_val 0), (IGNORE_STORE_PATH, Int_val 0),
                 (VMAX_PATH, U8_val 9), (GAIN_PATH, U8_val 128),
                 (SEQ_PATH, Str_val ''0 1''),
                 (CTRL_LOOP_PATH, Str_val ''0 0x0''), (CTRL_LOOP_PATH, Str_val ''1 0x0''),
                 (SCALE_PATH, U8_val 54),
                 (CTRL_LOOP_PATH, U8_val 1), (DURATION_PATH, U32_val 10),
                 (MODE_PATH, Str_val ''waveform''), (LRA_WAVE_SHAPE_PATH, U8_val 1),
                 (BRIGHTNESS_PATH, Int_val 1)]\<rparr>)"
proof -
  have "DOUBLE_CLICK \<in> {CLICK, DOUBLE_CLICK, TICK, HEAVY_CLICK, POP, THUD}" by simp
  from performEffect_recognized [OF this, of LIGHT "\<lparr>mShouldSetBrightness = False, writes = []\<rparr>"]
  show ?thesis
    by (auto simp: descriptor_def descriptor_writes_def strength_gain_def on_waveform_writes
        WAVEFORM_DOUBLE_CLICK_EFFECT_SEQ_def WAVEFORM_DOUBLE_CLICK_EFFECT_CTRL_LOOPS_def
        WAVEFORM_DOUBLE_CLICK_EFFECT_MS_def)
qed

text \<open>
  Claim C5: for every effect other than the six, and any strength, \<open>performEffect\<close>
  reports \<open>UNSUPPORTED_OPERATION\<close> with duration 0, clears \<open>mShouldSetBrightness\<close> and
  writes to no control file.
\<close>

theorem performEffect_unrecognized:
  "performEffect (Effect_other n) strength s =
     ((UNSUPPORTED_OPERATION, 0), s\<lparr>mShouldSetBrightness := False\<rparr>) \<and>
   writes (snd (performEffect (Effect_other n) strength s)) = writes s \<and>
   descriptor (Effect_other n) = None"
  by (simp add: performEffect_def descriptor_def)

text \<open>An unrecognized effect at strength STRONG, with the flag set before the call.\<close>

theorem performEffect_unrecognized_witness:
  "performEffect (Effect_other 7) STRONG \<lparr>mShouldSetBrightness = True, writes = []\<rparr> =
     ((UNSUPPORTED_OPERATION, 0), \<lparr>mShouldSetBrightness = False, writes = []\<rparr>)"
  using performEffect_unrecognized [of 7 STRONG "\<lparr>mShouldSetBrightness = True, writes = []\<rparr>"]
  by simp

text \<open>
  Claim C8: \<open>off\<close> writes 0 to the brightness file and 0 to the activate file and
  returns \<open>OK\<close>, in every state, so also after \<open>on\<close> with either channel. A second \<open>off\<close>
  issues the same two writes again, and \<open>off\<close> leaves \<open>mShouldSetBrightness\<close> as it was.
\<close>

theorem off_clears_both_channels:
  "off s = (OK, s\<lparr>writes := writes s @ [(BRIGHTNESS_PATH, Int_val 0), (ACTIVATE_PATH, Int_val 0)]\<rparr>) \<and>
   off (snd (off s)) =
     (OK, s\<lparr>writes := writes s @ [(BRIGHTNESS_PATH, Int_val 0), (ACTIVATE_PATH, Int_val 0)]
                              @ [(BRIGHTNESS_PATH, Int_val 0), (ACTIVATE_PATH, Int_val 0)]\<rparr>) \<and>
   mShouldSetBrightness (snd (off s)) = mShouldSetBrightness s \<and>
   (\<exists>s'. on timeoutMs isWaveform s = (OK, s') \<and>
      off s' = (OK, s'\<lparr>writes := writes s'
                 @ [(BRIGHTNESS_PATH, Int_val 0), (ACTIVATE_PATH, Int_val 0)]\<rparr>))"
  by (simp add: off_def on_def set_sysfs_def Let_def)

text \<open>Two calls of \<open>off\<close> in a row, from a state without writes.\<close>

theorem off_clears_both_channels_witness:
  "off \<lparr>mShouldSetBrightness = True, writes = []\<rparr> =
     (OK, \<lparr>mShouldSetBrightness = True,
           writes = [(BRIGHTNESS_PATH, Int_val 0), (ACTIVATE_PATH, Int_val 0)]\<rparr>) \<and>
   off (snd (off \<lparr>mShouldSetBrightness = True, writes = []\<rparr>)) =
     (OK, \<lparr>mShouldSetBrightness = True,
           writes = [(BRIGHTNESS_PATH, Int_val 0), (ACTIVATE_PATH, Int_val 0),
                     (BRIGHTNESS_PATH, Int_val 0), (ACTIVATE_PATH, Int_val 0)]\<rparr>)"
proof -
  note t = off_clears_both_channels [of "\<lparr>mShouldSetBrightness = True, writes = []\<rparr>" 0 False]
  show ?thesis
  proof
    from t [THEN conjunct1]
    show "off \<lparr>mShouldSetBrightness = True, writes = []\<rparr> =
       (OK, \<lparr>mShouldSetBrightness = True,
             writes = [(BRIGHTNESS_PATH, Int_val 0), (ACTIVATE_PATH, Int_val 0)]\<rparr>)"
      by simp
    from t [THEN conjunct2, THEN conjunct1]
    show "off (snd (off \<lparr>mShouldSetBrightness = True, writes = []\<rparr>)) =
       (OK, \<lparr>mShouldSetBrightness = True,
             writes = [(BRIGHTNESS_PATH, Int_val 0), (ACTIVATE_PATH, Int_val 0),
                       (BRIGHTNESS_PATH, Int_val 0), (ACTIVATE_PATH, Int_val 0)]\<rparr>)"
      by simp
  qed
qed

section \<open>The claim about setAmplitude\<close>

lemma rtp_input_value_1_16:
  "\<forall>n\<in>{1..<17::nat}. rtp_input_value (of_nat n) = Some (int n div 2)"
  apply (simp add: atLeastLessThan_nat_numeral)
  apply (simp add: dbl_defs normalize_quotient_jumps cong: bind_weak_cong)
  done

lemma rtp_input_value_17_32:
  "\<forall>n\<in>{17..<33::nat}. rtp_input_value (of_nat n) = Some (int n div 2)"
  apply (simp add: atLeastLessThan_nat_numeral)
  apply (simp add: dbl_defs normalize_quotient_jumps cong: bind_weak_cong)
  done

lemma rtp_input_value_33_48:
  "\<forall>n\<in>{33..<49::nat}. rtp_input_value (of_nat n) = Some (int n div 2)"
  apply (simp add: atLeastLessThan_nat_numeral)
  apply (simp add: dbl_defs normalize_quotient_jumps cong: bind_weak_cong)
  done

lemma rtp_input_value_49_64:
  "\<forall>n\<in>{49..<65::nat}. rtp_input_value (of_nat n) = Some (int n div 2)"
  apply (simp add: atLeastLessThan_nat_numeral)
  apply (simp add: dbl_defs normalize_quotient_jumps cong: bind_weak_cong)
  done

lemma rtp_input_value_65_80:
  "\<forall>n\<in>{65..<81::nat}. rtp_input_value (of_nat n) = Some (int n div 2)"
  apply (simp add: atLeastLessThan_nat_numeral)
  apply (simp add: dbl_defs normalize_quotient_jumps cong: bind_weak_cong)
  done

lemma rtp_input_value_81_96:
  "\<forall>n\<in>{81..<97::nat}. rtp_input_value (of_nat n) = Some (int n div 2)"
  apply (simp add: atLeastLessThan_nat_numeral)
  apply (simp add: dbl_defs normalize_quotient_jumps cong: bind_weak_cong)
  done

lemma rtp_input_value_97_112:
  "\<forall>n\<in>{97..<113::nat}. rtp_input_value (of_nat n) = Some (int n div 2)"
  apply (simp add: atLeastLessThan_nat_numeral)
  apply (simp add: dbl_defs normalize_quotient_jumps cong: bind_weak_cong)
  done

lemma rtp_input_value_113_128:
  "\<forall>n\<in>{113..<129::nat}. rtp_input_value (of_nat n) = Some (int n div 2)"
  apply (simp add: atLeastLessThan_nat_numeral)
  apply (simp add: dbl_defs normalize_quotient_jumps cong: bind_weak_cong)
  done

lemma rtp_input_value_129_144:
  "\<forall>n\<in>{129..<145::nat}. rtp_input_value (of_nat n) = Some (int n div 2)"
  apply (simp add: atLeastLessThan_nat_numeral)
  apply (simp add: dbl_defs normalize_quotient_jumps cong: bind_weak_cong)
  done

lemma rtp_input_value_145_160:
  "\<forall>n\<in>{145..<161::nat}. rtp_input_value (of_nat n) = Some (int n div 2)"
  apply (simp add: atLeastLessThan_nat_numeral)
  apply (simp add: dbl_defs normalize_quotient_jumps cong: bind_weak_cong)
  done

lemma rtp_input_value_161_176:
  "\<forall>n\<in>{161..<177::nat}. rtp_input_value (of_nat n) = Some (int n div 2)"
  apply (simp add: atLeastLessThan_nat_numeral)
  apply (simp add: dbl_defs normalize_quotient_jumps cong: bind_weak_cong)
  done

lemma rtp_input_value_177_192:
  "\<forall>n\<in>{177..<193::nat}. rtp_input_value (of_nat n) = Some (int n div 2)"
  apply (simp add: atLeastLessThan_nat_numeral)
  apply (simp add: dbl_defs normalize_quotient_jumps cong: bind_weak_cong)
  done

lemma rtp_input_value_193_208:
  "\<forall>n\<in>{193..<209::nat}. rtp_input_value (of_nat n) = Some (int n div 2)"
  apply (simp add: atLeastLessThan_nat_numeral)
  apply (simp add: dbl_defs normalize_quotient_jumps cong: bind_weak_cong)
  done

lemma rtp_input_value_209_224:
  "\<forall>n\<in>{209..<225::nat}. rtp_input_value (of_nat n) = Some (int n div 2)"
  apply (simp add: atLeastLessThan_nat_numeral)
  apply (simp add: dbl_defs normalize_quotient_jumps cong: bind_weak_cong)
  done

lemma rtp_input_value_225_240:
  "\<forall>n\<in>{225..<241::nat}. rtp_input_value (of_nat n) = Some (int n div 2)"
  apply (simp add: atLeastLessThan_nat_numeral)
  apply (simp add: dbl_defs normalize_quotient_jumps cong: bind_weak_cong)
  done

lemma rtp_input_value_241_255:
  "\<forall>n\<in>{241..<256::nat}. rtp_input_value (of_nat n) = Some (int n div 2)"
  apply (simp add: atLeastLessThan_nat_numeral)
  apply (simp add: dbl_defs normalize_quotient_jumps cong: bind_weak_cong)
  done

lemma interval_join:
  "\<forall>n\<in>{a..<b}. P n \<Longrightarrow> \<forall>n\<in>{b..<c}. P n \<Longrightarrow> \<forall>n\<in>{a..<c::nat}. P n"
proof
  fix n assume l: "\<forall>n\<in>{a..<b}. P n" and u: "\<forall>n\<in>{b..<c}. P n" and n: "n \<in> {a..<c}"
  show "P n"
  proof (cases "n < b")
    case True with l n show ?thesis by simp
  next
    case False with u n show ?thesis by simp
  qed
qed

lemma rtp_input_value_nonzero:
  "\<forall>n\<in>{1..<256::nat}. rtp_input_value (of_nat n) = Some (int n div 2)"
  by (rule interval_join [OF rtp_input_value_1_16],
      rule interval_join [OF rtp_input_value_17_32],
      rule interval_join [OF rtp_input_value_33_48],
      rule interval_join [OF rtp_input_value_49_64],
      rule interval_join [OF rtp_input_value_65_80],
      rule interval_join [OF rtp_input_value_81_96],
      rule interval_join [OF rtp_input_value_97_112],
      rule interval_join [OF rtp_input_value_113_128],
      rule interval_join [OF rtp_input_value_129_144],
      rule interval_join [OF rtp_input_value_145_160],
      rule interval_join [OF rtp_input_value_161_176],
      rule interval_join [OF rtp_input_value_177_192],
      rule interval_join [OF rtp_input_value_193_208],
      rule interval_join [OF rtp_input_value_209_224],
      rule interval_join [OF rtp_input_value_225_240],
      rule rtp_input_value_241_255)

lemma rtp_input_value_all:
  assumes "amplitude \<noteq> 0"
  shows "rtp_input_value amplitude = Some (uint amplitude div 2)"
proof -
  define n where "n = unat amplitude"
  have a: "amplitude = of_nat n" by (simp add: n_def)
  have "n \<noteq> 0" using assms by (simp add: n_def unat_eq_0)
  moreover have "n < 256" using unsigned_less [of amplitude, where 'a = nat] by (simp add: n_def)
  ultimately have "n \<in> {1..<256}" by simp
  with rtp_input_value_nonzero have "rtp_input_value (of_nat n) = Some (int n div 2)" by blast
  moreover have "uint amplitude = int n" by (simp add: n_def)
  ultimately show ?thesis by (simp add: a)
qed

lemma round_half: "round (real_of_int k / 254 * 127) = (k + 1) div 2"
proof -
  have "real_of_int k / 254 * 127 + 1 / 2 = real_of_int (k + 1) / real_of_int 2" by simp
  then have "round (real_of_int k / 254 * 127) = \<lfloor>real_of_int (k + 1) / real_of_int 2\<rfloor>"
    by (simp only: round_def)
  also have "\<dots> = (k + 1) div 2" by (rule floor_divide_of_int_eq)
  finally show ?thesis .
qed

text \<open>
  Claim C6: \<open>setAmplitude\<close> returns \<open>BAD_VALUE\<close> exactly for amplitude 0 and then leaves
  the state as it was; for every amplitude from 1 to 255 it returns \<open>OK\<close> and writes
  \<open>round((amplitude - 1) / 254 * 127)\<close> to the realtime-playback input. On the right-hand
  side the quotient is the exact one in the real numbers, and \<open>round\<close> rounds a half
  upwards, as \<open>std::round\<close> does for values that are not negative.
\<close>

theorem setAmplitude_rescales:
  "setAmplitude amplitude s =
     Some (if amplitude = 0 then (BAD_VALUE, s)
           else (OK, s\<lparr>writes := writes s @
                   [(RTP_INPUT_PATH, Int_val (round (real_of_int (uint amplitude - 1) / 254 * 127)))]\<rparr>))"
proof (cases "amplitude = 0")
  case True
  then show ?thesis by (simp add: setAmplitude_def)
next
  case False
  have r: "round (real_of_int (uint amplitude - 1) / 254 * 127) = uint amplitude div 2"
    using round_half [of "uint amplitude - 1"] by simp
  from rtp_input_value_all [OF False] False show ?thesis
    unfolding r by (simp add: setAmplitude_def set_sysfs_def)
qed

text \<open>Amplitudes 0, 255 and 1.\<close>

theorem setAmplitude_rescales_witness:
  "setAmplitude 0 \<lparr>mShouldSetBrightness = False, writes = []\<rparr> =
     Some (BAD_VALUE, \<lparr>mShouldSetBrightness = False, writes = []\<rparr>) \<and>
   setAmplitude 255 \<lparr>mShouldSetBrightness = False, writes = []\<rparr> =
     Some (OK, \<lparr>mShouldSetBrightness = False, writes = [(RTP_INPUT_PATH, Int_val 127)]\<rparr>) \<and>
   setAmplitude 1 \<lparr>mShouldSetBrightness = False, writes = []\<rparr> =
     Some (OK, \<lparr>mShouldSetBrightness = False, writes = [(RTP_INPUT_PATH, Int_val 0)]\<rparr>)"
  using setAmplitude_rescales [of 0 "\<lparr>mShouldSetBrightness = False, writes = []\<rparr>"]
    setAmplitude_rescales [of 255 "\<lparr>mShouldSetBrightness = False, writes = []\<rparr>"]
    setAmplitude_rescales [of 1 "\<lparr>mShouldSetBrightness = False, writes = []\<rparr>"]
  by simp

end
